theory Spec2Isabelle
  imports Complex_Main "HOL-Library.Word" "HOL-Library.List_Lexorder" "HOL-Library.Char_ord"
begin

section \<open>internal/sender: bounded retry with exponential backoff\<close>

text \<open>
  Go's \<^verbatim>\<open>time.Duration\<close> is a signed 64-bit count of nanoseconds: multiplication wraps
  around and comparisons are signed.
\<close>

type_synonym duration = "64 word"

record RetryConfig =
  MaxAttempts :: int
  InitialDelay :: duration
  MaxDelay :: duration

text \<open>
  \<^verbatim>\<open>
  func (s *HTTPSender) nextDelay(current time.Duration) time.Duration {
      next := current * 2
      if next > s.retry.MaxDelay { return s.retry.MaxDelay }
      return next
  }
  \<close>
\<close>

definition nextDelay :: "RetryConfig \<Rightarrow> duration \<Rightarrow> duration" where
  "nextDelay r current =
     (let next = current * 2 in
      if MaxDelay r <s next then MaxDelay r else next)"

text \<open>
  The delay variable of \<^verbatim>\<open>sendWithRetry\<close>: it starts at \<^verbatim>\<open>InitialDelay\<close> and is replaced by
  \<^verbatim>\<open>nextDelay\<close> after every wait. \<open>delaySchedule r n\<close> is its value after \<open>n\<close> waits, that is,
  the delay used after failed attempt number \<open>n + 1\<close>.
\<close>

primrec delaySchedule :: "RetryConfig \<Rightarrow> nat \<Rightarrow> duration" where
  "delaySchedule r 0 = InitialDelay r"
| "delaySchedule r (Suc n) = nextDelay r (delaySchedule r n)"

text \<open>
  The errors \<^verbatim>\<open>sendWithRetry\<close> returns: \<^verbatim>\<open>ctx.Err()\<close>, or the aggregate
  \<^verbatim>\<open>"all %d attempts failed: %w"\<close> holding the attempt count and the last cause
  (\<open>None\<close> when no attempt was made). \<open>'e\<close> is the type of the errors of \<^verbatim>\<open>doSend\<close>.
\<close>

datatype 'e send_error = CtxErr | AllAttemptsFailed int "'e option"

text \<open>What the loop did, in order: a call of \<^verbatim>\<open>doSend\<close> or a wait in the \<^verbatim>\<open>select\<close>.\<close>

datatype retry_event = DoSend int | Wait duration

text \<open>
  \<^verbatim>\<open>
  var lastErr error
  delay := s.retry.InitialDelay
  for attempt := 1; attempt <= s.retry.MaxAttempts; attempt++ {
      err := s.doSend(ctx, data)
      if err == nil { return nil }
      lastErr = err
      if attempt < s.retry.MaxAttempts {
          select {
          case <-ctx.Done(): return ctx.Err()
          case <-time.After(delay):
          }
          delay = s.nextDelay(delay)
      }
  }
  return fmt.Errorf("all %d attempts failed: %w", s.retry.MaxAttempts, lastErr)
  \<close>
  The network and the context are outside the program: \<open>doSend n\<close> is the outcome of
  attempt number \<open>n\<close> (\<open>None\<close> is success) and \<open>ctxDone n\<close> tells whether the \<^verbatim>\<open>select\<close>
  after attempt \<open>n\<close> took the \<^verbatim>\<open>ctx.Done()\<close> branch. The function returns the error
  (\<open>None\<close> is \<^verbatim>\<open>nil\<close>) and the events in order.
\<close>

function sendLoop ::
  "RetryConfig \<Rightarrow> (int \<Rightarrow> 'e option) \<Rightarrow> (int \<Rightarrow> bool) \<Rightarrow> int \<Rightarrow> duration \<Rightarrow> 'e option
     \<Rightarrow> 'e send_error option \<times> retry_event list" where
  "sendLoop r doSend ctxDone attempt delay lastErr =
     (if attempt \<le> MaxAttempts r then
        (case doSend attempt of
           None \<Rightarrow> (None, [DoSend attempt])
         | Some err \<Rightarrow>
             if attempt < MaxAttempts r then
               (if ctxDone attempt then (Some CtxErr, [DoSend attempt, Wait delay])
                else
                  (case sendLoop r doSend ctxDone (attempt + 1) (nextDelay r delay) (Some err) of
                     (res, evs) \<Rightarrow> (res, DoSend attempt # Wait delay # evs)))
             else
               (case sendLoop r doSend ctxDone (attempt + 1) delay (Some err) of
                  (res, evs) \<Rightarrow> (res, DoSend attempt # evs)))
      else (Some (AllAttemptsFailed (MaxAttempts r) lastErr), []))"
  by pat_completeness auto
termination
  by (relation "measure (\<lambda>(r, doSend, ctxDone, attempt, delay, lastErr).
        nat (MaxAttempts r + 1 - attempt))") auto

definition sendWithRetry ::
  "RetryConfig \<Rightarrow> (int \<Rightarrow> 'e option) \<Rightarrow> (int \<Rightarrow> bool) \<Rightarrow> 'e send_error option \<times> retry_event list" where
  "sendWithRetry r doSend ctxDone = sendLoop r doSend ctxDone 1 (InitialDelay r) None"


text \<open>The attempt numbers of the \<^verbatim>\<open>doSend\<close> calls in a trace, and the delays of its waits.\<close>

primrec attempts :: "retry_event list \<Rightarrow> int list" where
  "attempts [] = []"
| "attempts (e # es) = (case e of DoSend n \<Rightarrow> n # attempts es | Wait d \<Rightarrow> attempts es)"

primrec waits :: "retry_event list \<Rightarrow> duration list" where
  "waits [] = []"
| "waits (e # es) = (case e of DoSend n \<Rightarrow> waits es | Wait d \<Rightarrow> d # waits es)"








text \<open>
  \<^verbatim>\<open>HTTPSender.Health\<close> builds a GET request, executes it and looks at the status code. The
  three ways the probe can go are the input of the model.
  \<^verbatim>\<open>
  req, err := http.NewRequestWithContext(ctx, http.MethodGet, url, nil)
  if err != nil { return fmt.Errorf("failed to create health request: %w", err) }
  resp, err := s.client.Do(req)
  if err != nil { return fmt.Errorf("health check failed: %w", err) }
  if resp.StatusCode >= 500 { return fmt.Errorf("server unhealthy: status %d", resp.StatusCode) }
  return nil
  \<close>
\<close>

datatype probe = RequestNotCreated | TransportFailure | Response int

datatype health_error = CreateHealthRequestFailed | HealthCheckFailed | ServerUnhealthy int

fun Health :: "probe \<Rightarrow> health_error option" where
  "Health RequestNotCreated = Some CreateHealthRequestFailed"
| "Health TransportFailure = Some HealthCheckFailed"
| "Health (Response code) = (if code \<ge> 500 then Some (ServerUnhealthy code) else None)"

section \<open>internal/health: the sender's health checker\<close>

datatype Status = StatusHealthy | StatusUnhealthy | StatusDegraded

text \<open>
  \<^verbatim>\<open>
  func (c *SenderHealthChecker) Check(ctx context.Context) (Status, string) {
      if err := c.healthFunc(ctx); err != nil { return StatusDegraded, err.Error() }
      return StatusHealthy, ""
  }
  \<close>
  The message is kept as the error itself. \<^verbatim>\<open>main\<close> registers the checker with the sender's
  \<^verbatim>\<open>Health\<close> method as \<^verbatim>\<open>healthFunc\<close>.
\<close>

definition SenderHealthChecker_Check :: "('c \<Rightarrow> 'e option) \<Rightarrow> 'c \<Rightarrow> Status \<times> 'e option" where
  "SenderHealthChecker_Check healthFunc ctx =
     (case healthFunc ctx of Some err \<Rightarrow> (StatusDegraded, Some err) | None \<Rightarrow> (StatusHealthy, None))"

section \<open>internal/model: data points and envelopes\<close>

text \<open>
  \<^verbatim>\<open>DataPoint.Value\<close> has type \<^verbatim>\<open>any\<close>. The dynamic types the adapter distinguishes are the
  constructors; \<open>VOther\<close> stands for every other dynamic type (a decoded JSON array or
  object). \<open>'f\<close> is the type of floating-point numbers, left open: no theorem depends on
  their arithmetic.
\<close>

datatype 'f goval =
    VNil | VBool bool | VInt int | VInt64 int | VFloat32 'f | VFloat64 'f
  | VString string | VOther string

definition QualityGood :: string where "QualityGood = ''good''"
definition QualityBad :: string where "QualityBad = ''bad''"
definition QualityUnknown :: string where "QualityUnknown = ''unknown''"

record 'f DataPoint =
  Name :: string
  Value :: "'f goval"
  Unit :: string
  Quality :: string
  Severity :: string

text \<open>A \<^verbatim>\<open>time.Time\<close> is modelled as its count of nanoseconds since the Unix epoch.\<close>

type_synonym gotime = int

record 'f Envelope =
  ID :: string
  StationID :: string
  StationName :: string
  Timestamp :: gotime
  DeviceID :: string
  DeviceName :: string
  DeviceGroup :: string
  Values :: "'f DataPoint list"

section \<open>internal/config and internal/collector: device configuration, collected data\<close>

record FieldConfig =
  Source :: string
  Target :: string
  fc_Unit :: string
  Type :: string
  fc_Severity :: string

record 'f CollectedData =
  cd_DeviceID :: string
  cd_DeviceName :: string
  cd_DeviceGroup :: string
  DataPoints :: "'f DataPoint list"

section \<open>internal/collector/adapters: the energy API adapter\<close>

text \<open>
  The functions of Go's standard library the conversions call, taken as parameters:
  \<^verbatim>\<open>strconv.ParseFloat(s, 64)\<close>, \<^verbatim>\<open>strconv.Atoi\<close>, the conversions \<^verbatim>\<open>float64(i)\<close>,
  \<^verbatim>\<open>float64(x)\<close> of a \<^verbatim>\<open>float32\<close> and \<^verbatim>\<open>int(x)\<close>, the test \<^verbatim>\<open>x != 0\<close> and
  \<^verbatim>\<open>fmt.Sprintf("%v", v)\<close>.
\<close>

record 'f golib =
  ParseFloat :: "string \<Rightarrow> 'f option"
  Atoi :: "string \<Rightarrow> int option"
  float64_of_int :: "int \<Rightarrow> 'f"
  float64_of_float32 :: "'f \<Rightarrow> 'f"
  int_of_float64 :: "'f \<Rightarrow> int"
  float64_nonzero :: "'f \<Rightarrow> bool"
  Sprint :: "'f goval \<Rightarrow> string"

text \<open>
  \<^verbatim>\<open>strconv.ParseBool\<close> accepts exactly 1, t, T, TRUE, true, True and 0, f, F, FALSE, false,
  False; every other string is an error.
\<close>

definition ParseBool :: "string \<Rightarrow> bool option" where
  "ParseBool s =
     (if s \<in> set [''1'', ''t'', ''T'', ''TRUE'', ''true'', ''True''] then Some True
      else if s \<in> set [''0'', ''f'', ''F'', ''FALSE'', ''false'', ''False''] then Some False
      else None)"

fun toFloat :: "'f golib \<Rightarrow> 'f goval \<Rightarrow> 'f goval \<times> string" where
  "toFloat lib (VFloat64 val) = (VFloat64 val, QualityGood)"
| "toFloat lib (VFloat32 val) = (VFloat64 (float64_of_float32 lib val), QualityGood)"
| "toFloat lib (VInt val) = (VFloat64 (float64_of_int lib val), QualityGood)"
| "toFloat lib (VInt64 val) = (VFloat64 (float64_of_int lib val), QualityGood)"
| "toFloat lib (VString val) =
     (case ParseFloat lib val of
        None \<Rightarrow> (VNil, QualityBad)
      | Some f \<Rightarrow> (VFloat64 f, QualityGood))"
| "toFloat lib _ = (VNil, QualityBad)"

fun toInt :: "'f golib \<Rightarrow> 'f goval \<Rightarrow> 'f goval \<times> string" where
  "toInt lib (VInt val) = (VInt val, QualityGood)"
| "toInt lib (VInt64 val) = (VInt val, QualityGood)"
| "toInt lib (VFloat64 val) = (VInt (int_of_float64 lib val), QualityGood)"
| "toInt lib (VString val) =
     (case Atoi lib val of
        None \<Rightarrow> (VNil, QualityBad)
      | Some i \<Rightarrow> (VInt i, QualityGood))"
| "toInt lib _ = (VNil, QualityBad)"

text \<open>
  \<^verbatim>\<open>
  case string:
      b, err := strconv.ParseBool(val)
      if err != nil {
          return val == "1" || val == "on" || val == "true", model.QualityGood
      }
      return b, model.QualityGood
  \<close>
\<close>

fun toBool :: "'f golib \<Rightarrow> 'f goval \<Rightarrow> 'f goval \<times> string" where
  "toBool lib (VBool val) = (VBool val, QualityGood)"
| "toBool lib (VInt val) = (VBool (val \<noteq> 0), QualityGood)"
| "toBool lib (VFloat64 val) = (VBool (float64_nonzero lib val), QualityGood)"
| "toBool lib (VString val) =
     (case ParseBool val of
        None \<Rightarrow> (VBool (val = ''1'' \<or> val = ''on'' \<or> val = ''true''), QualityGood)
      | Some b \<Rightarrow> (VBool b, QualityGood))"
| "toBool lib _ = (VNil, QualityBad)"

definition convertValue :: "'f golib \<Rightarrow> 'f goval \<Rightarrow> string \<Rightarrow> 'f goval \<times> string" where
  "convertValue lib rawValue fieldType =
     (if rawValue = VNil then (VNil, QualityBad)
      else if fieldType = ''float'' then toFloat lib rawValue
      else if fieldType = ''int'' then toInt lib rawValue
      else if fieldType = ''bool'' then toBool lib rawValue
      else if fieldType = ''string'' then (VString (Sprint lib rawValue), QualityGood)
      else (rawValue, QualityGood))"

text \<open>
  The body of the loop of \<^verbatim>\<open>transformData\<close>: one data point per configured field. In the
  branch of a missing field the severity is not set and stays empty.
\<close>

definition transformField ::
  "'f golib \<Rightarrow> (string \<rightharpoonup> 'f goval) \<Rightarrow> FieldConfig \<Rightarrow> 'f DataPoint" where
  "transformField lib rawData field =
     (case rawData (Source field) of
        None \<Rightarrow>
          \<lparr>Name = Target field, Value = VNil, Unit = fc_Unit field,
           Quality = QualityBad, Severity = ''''\<rparr>
      | Some rawValue \<Rightarrow>
          (case convertValue lib rawValue (Type field) of
             (v, quality) \<Rightarrow>
               \<lparr>Name = Target field, Value = v, Unit = fc_Unit field, Quality = quality,
                Severity = (if fc_Severity field \<noteq> '''' then fc_Severity field else '''')\<rparr>))"

primrec transformData ::
  "'f golib \<Rightarrow> (string \<rightharpoonup> 'f goval) \<Rightarrow> FieldConfig list \<Rightarrow> 'f DataPoint list" where
  "transformData lib rawData [] = []"
| "transformData lib rawData (field # rest) =
     transformField lib rawData field # transformData lib rawData rest"


section \<open>internal/buffer: the SQLite buffer\<close>

text \<open>
  A row of the table created by \<^verbatim>\<open>migrate\<close>:
  \<^verbatim>\<open>
  CREATE TABLE IF NOT EXISTS buffer (
      id TEXT PRIMARY KEY, station_id TEXT NOT NULL, station_name TEXT,
      device_id TEXT NOT NULL, device_name TEXT, device_group TEXT,
      timestamp TEXT NOT NULL, values_json TEXT NOT NULL, created_at TEXT NOT NULL,
      sent INTEGER DEFAULT 0);
  \<close>
  A column without \<^verbatim>\<open>NOT NULL\<close> may hold NULL (\<open>None\<close>); in SQLite this includes a
  \<^verbatim>\<open>TEXT PRIMARY KEY\<close>. The table is the list of its rows in insertion order. The database
  engine is taken to execute every statement: what is modelled are the statements and the
  errors they raise themselves, not I/O failures.
\<close>

record row =
  r_id :: "string option"
  r_station_id :: string
  r_station_name :: "string option"
  r_device_id :: string
  r_device_name :: "string option"
  r_device_group :: "string option"
  r_timestamp :: string
  r_values_json :: string
  r_created_at :: string
  r_sent :: "int option"

text \<open>
  The library functions the buffer calls, taken as parameters:
  \<^verbatim>\<open>t.Format(time.RFC3339)\<close>, \<^verbatim>\<open>time.Parse(time.RFC3339, s)\<close>, and \<^verbatim>\<open>json.Marshal\<close> and
  \<^verbatim>\<open>json.Unmarshal\<close> at the type \<^verbatim>\<open>[]model.DataPoint\<close> (\<open>None\<close> is an error).
\<close>

record 'f codec =
  FormatRFC3339 :: "gotime \<Rightarrow> string"
  ParseRFC3339 :: "string \<Rightarrow> gotime option"
  Marshal :: "'f DataPoint list \<Rightarrow> string option"
  Unmarshal :: "string \<Rightarrow> 'f DataPoint list option"

datatype buffer_error = MarshalValuesFailed | StoreEnvelopeFailed

text \<open>
  \<^verbatim>\<open>
  valuesJSON, err := json.Marshal(envelope.Values)
  if err != nil { return fmt.Errorf("failed to marshal values: %w", err) }
  _, err = b.db.ExecContext(ctx, `INSERT INTO buffer (id, ..., created_at, sent)
                                  VALUES (?, ?, ?, ?, ?, ?, ?, ?, ?, 0)`, envelope.ID, ...,
      envelope.Timestamp.Format(time.RFC3339), string(valuesJSON),
      time.Now().UTC().Format(time.RFC3339))
  if err != nil { return fmt.Errorf("failed to store envelope: %w", err) }
  return nil
  \<close>
  The statement is a plain \<^verbatim>\<open>INSERT\<close>: a row with the same primary key makes it fail with a
  uniqueness violation and leaves the table as it was.
\<close>

definition Store ::
  "'f codec \<Rightarrow> gotime \<Rightarrow> row list \<Rightarrow> 'f Envelope \<Rightarrow> buffer_error option \<times> row list" where
  "Store lib now tbl envelope =
     (case Marshal lib (Values envelope) of
        None \<Rightarrow> (Some MarshalValuesFailed, tbl)
      | Some valuesJSON \<Rightarrow>
          if Some (ID envelope) \<in> set (map r_id tbl) then (Some StoreEnvelopeFailed, tbl)
          else
            (None,
             tbl @ [\<lparr>r_id = Some (ID envelope), r_station_id = StationID envelope,
                     r_station_name = Some (StationName envelope),
                     r_device_id = DeviceID envelope,
                     r_device_name = Some (DeviceName envelope),
                     r_device_group = Some (DeviceGroup envelope),
                     r_timestamp = FormatRFC3339 lib (Timestamp envelope),
                     r_values_json = valuesJSON,
                     r_created_at = FormatRFC3339 lib now,
                     r_sent = Some 0\<rparr>]))"

text \<open>
  \<^verbatim>\<open>SELECT ... FROM buffer WHERE sent = 0 ORDER BY created_at ASC LIMIT ?\<close>: text columns are
  compared bytewise, rows with equal keys are kept in insertion order, and a negative
  \<^verbatim>\<open>LIMIT\<close> is no limit.
\<close>

definition pendingRows :: "row list \<Rightarrow> int \<Rightarrow> row list" where
  "pendingRows tbl limit =
     (let rs = sort_key r_created_at (filter (\<lambda>r. r_sent r = Some 0) tbl) in
      if limit < 0 then rs else take (nat limit) rs)"

text \<open>
  One pass of the loop over \<^verbatim>\<open>rows.Next()\<close>: \<^verbatim>\<open>rows.Scan\<close> into eight \<^verbatim>\<open>string\<close> variables fails
  on a NULL, then the timestamp is parsed and the values are unmarshalled. \<open>None\<close> is a
  \<^verbatim>\<open>continue\<close>.
\<close>

definition scanRow :: "'f codec \<Rightarrow> row \<Rightarrow> 'f Envelope option" where
  "scanRow lib r =
     (case (r_id r, r_station_name r, r_device_name r, r_device_group r) of
        (Some rid, Some stationName, Some deviceName, Some deviceGroup) \<Rightarrow>
          (case ParseRFC3339 lib (r_timestamp r) of
             None \<Rightarrow> None
           | Some timestamp \<Rightarrow>
               (case Unmarshal lib (r_values_json r) of
                  None \<Rightarrow> None
                | Some vs \<Rightarrow>
                    Some \<lparr>ID = rid, StationID = r_station_id r, StationName = stationName,
                          Timestamp = timestamp, DeviceID = r_device_id r,
                          DeviceName = deviceName, DeviceGroup = deviceGroup, Values = vs\<rparr>))
      | _ \<Rightarrow> None)"

fun scanRows :: "'f codec \<Rightarrow> row list \<Rightarrow> 'f Envelope list" where
  "scanRows lib [] = []"
| "scanRows lib (r # rs) =
     (case scanRow lib r of
        None \<Rightarrow> scanRows lib rs
      | Some envelope \<Rightarrow> envelope # scanRows lib rs)"

text \<open>\<^verbatim>\<open>GetPending\<close> returns the envelopes and \<^verbatim>\<open>rows.Err()\<close>, which no skipped row sets.\<close>

definition GetPending ::
  "'f codec \<Rightarrow> row list \<Rightarrow> int \<Rightarrow> 'f Envelope list \<times> buffer_error option" where
  "GetPending lib tbl limit = (scanRows lib (pendingRows tbl limit), None)"

text \<open>
  \<^verbatim>\<open>MarkSent\<close> runs \<^verbatim>\<open>DELETE FROM buffer WHERE id = ?\<close> for every identifier, in one
  transaction; \<^verbatim>\<open>Cleanup\<close> runs \<^verbatim>\<open>DELETE FROM buffer WHERE created_at < ?\<close> with the formatted
  cutoff \<^verbatim>\<open>time.Now().UTC().Add(-maxAge)\<close> (the duration is negated as an \<^verbatim>\<open>int64\<close>, which wraps
  at its least value); \<^verbatim>\<open>Count\<close> counts the rows with \<^verbatim>\<open>sent = 0\<close>.
\<close>

definition MarkSent :: "row list \<Rightarrow> string list \<Rightarrow> buffer_error option \<times> row list" where
  "MarkSent tbl ids =
     (if ids = [] then (None, tbl)
      else (None, fold (\<lambda>i t. filter (\<lambda>r. r_id r \<noteq> Some i) t) ids tbl))"

definition Cleanup ::
  "'f codec \<Rightarrow> gotime \<Rightarrow> row list \<Rightarrow> duration \<Rightarrow> buffer_error option \<times> row list" where
  "Cleanup lib now tbl maxAge =
     (let cutoff = FormatRFC3339 lib (now + sint (- maxAge)) in
      (None, filter (\<lambda>r. \<not> r_created_at r < cutoff) tbl))"

definition Count :: "row list \<Rightarrow> int \<times> buffer_error option" where
  "Count tbl = (int (length (filter (\<lambda>r. r_sent r = Some 0) tbl)), None)"

text \<open>A row the loop of \<^verbatim>\<open>GetPending\<close> does not skip.\<close>

definition wellFormed :: "'f codec \<Rightarrow> row \<Rightarrow> bool" where
  "wellFormed lib r \<longleftrightarrow>
     r_id r \<noteq> None \<and> r_station_name r \<noteq> None \<and> r_device_name r \<noteq> None \<and>
     r_device_group r \<noteq> None \<and> ParseRFC3339 lib (r_timestamp r) \<noteq> None \<and>
     Unmarshal lib (r_values_json r) \<noteq> None"

text \<open>
  Modelled from the library documentation: what a timestamp and a list of data points are
  after a round trip through the text that \<^verbatim>\<open>Store\<close> writes.

  The layout \<^verbatim>\<open>time.RFC3339\<close> has no fraction of a second and holds the years 0000 to 9999:
  for an instant in that range, \<^verbatim>\<open>time.Parse\<close> of the formatted text is the instant at the
  start of its second.

  \<^verbatim>\<open>json.Unmarshal\<close> into a value of type \<^verbatim>\<open>any\<close> stores a \<^verbatim>\<open>float64\<close> for a JSON number, a
  \<^verbatim>\<open>bool\<close> for a boolean, a \<^verbatim>\<open>string\<close> for a string and \<^verbatim>\<open>nil\<close> for null, and an array or
  object as the same composite again. So of the values of a data point an integer comes
  back as the \<^verbatim>\<open>float64\<close> of its number (\<open>float64_of\<close>) and the others come back as they
  were; the string fields of the data point come back as they were. \<^verbatim>\<open>json.Marshal\<close>
  replaces bytes that are not valid UTF-8 (\<open>validUTF8\<close> is \<^verbatim>\<open>utf8.ValidString\<close>) and writes a
  \<^verbatim>\<open>float32\<close> with its own precision, so the law is stated for data points without either.
  Within this program a \<open>VOther\<close> value is an array or object decoded from the JSON of a
  device response.
\<close>

definition truncateToSecond :: "gotime \<Rightarrow> gotime" where
  "truncateToSecond t = t - t mod 1000000000"

definition inRFC3339Range :: "gotime \<Rightarrow> bool" where
  "inRFC3339Range t \<longleftrightarrow>
     - 62167219200 * 1000000000 \<le> t \<and> t < 253402300800 * 1000000000"

definition rfc3339RoundTrip :: "'f codec \<Rightarrow> bool" where
  "rfc3339RoundTrip lib \<longleftrightarrow>
     (\<forall>t. inRFC3339Range t \<longrightarrow>
        ParseRFC3339 lib (FormatRFC3339 lib t) = Some (truncateToSecond t))"

fun jsonDecodedValue :: "(int \<Rightarrow> 'f) \<Rightarrow> 'f goval \<Rightarrow> 'f goval" where
  "jsonDecodedValue float64_of (VInt i) = VFloat64 (float64_of i)"
| "jsonDecodedValue float64_of (VInt64 i) = VFloat64 (float64_of i)"
| "jsonDecodedValue float64_of v = v"

definition jsonDecoded :: "(int \<Rightarrow> 'f) \<Rightarrow> 'f DataPoint \<Rightarrow> 'f DataPoint" where
  "jsonDecoded float64_of dp = dp\<lparr>Value := jsonDecodedValue float64_of (Value dp)\<rparr>"

definition jsonClean :: "(string \<Rightarrow> bool) \<Rightarrow> 'f DataPoint \<Rightarrow> bool" where
  "jsonClean validUTF8 dp \<longleftrightarrow>
     validUTF8 (Name dp) \<and> validUTF8 (Unit dp) \<and> validUTF8 (Quality dp) \<and>
     validUTF8 (Severity dp) \<and>
     (case Value dp of VString s \<Rightarrow> validUTF8 s | VFloat32 x \<Rightarrow> False | _ \<Rightarrow> True)"

definition jsonRoundTrip :: "(string \<Rightarrow> bool) \<Rightarrow> (int \<Rightarrow> 'f) \<Rightarrow> 'f codec \<Rightarrow> bool" where
  "jsonRoundTrip validUTF8 float64_of lib \<longleftrightarrow>
     (\<forall>vs js. Marshal lib vs = Some js \<and> (\<forall>dp\<in>set vs. jsonClean validUTF8 dp) \<longrightarrow>
        Unmarshal lib js = Some (map (jsonDecoded float64_of) vs))"

section \<open>internal/collector: the manager\<close>

text \<open>
  The fields of the manager that the round and the replay cycle read: the station, whether buffering is enabled,
  whether a buffer was given (\<^verbatim>\<open>m.buffer != nil\<close>) and \<^verbatim>\<open>cfg.Buffer.MaxAge\<close>.
\<close>

record Manager =
  m_StationID :: string
  m_StationName :: string
  bufferEnabled :: bool
  bufferPresent :: bool
  m_MaxAge :: duration

text \<open>
  The manager works through the interfaces \<^verbatim>\<open>sender.Sender\<close> and \<^verbatim>\<open>buffer.Buffer\<close>, and
  \<^verbatim>\<open>model.NewEnvelope\<close> draws an identifier and the current time. Each is a function on the
  state \<open>'w\<close> of everything outside the manager; \<open>'x\<close> is the type of errors.
\<close>

record ('w, 'f, 'x) collaborators =
  sender_Send :: "'f Envelope \<Rightarrow> 'w \<Rightarrow> 'x option \<times> 'w"
  buffer_Store :: "'f Envelope \<Rightarrow> 'w \<Rightarrow> 'x option \<times> 'w"
  buffer_GetPending :: "int \<Rightarrow> 'w \<Rightarrow> ('f Envelope list \<times> 'x option) \<times> 'w"
  buffer_MarkSent :: "string list \<Rightarrow> 'w \<Rightarrow> 'x option \<times> 'w"
  buffer_Cleanup :: "duration \<Rightarrow> 'w \<Rightarrow> 'x option \<times> 'w"
  uuid_New :: "'w \<Rightarrow> string \<times> 'w"
  time_Now :: "'w \<Rightarrow> gotime \<times> 'w"

text \<open>
  What the manager did, in order: an envelope built, or a call through an interface with
  its argument (and, for \<^verbatim>\<open>Send\<close> and \<^verbatim>\<open>Store\<close>, whether it returned \<^verbatim>\<open>nil\<close>).
\<close>

datatype 'f call =
    Built "'f Envelope"
  | SendCall "'f Envelope" bool
  | StoreCall "'f Envelope" bool
  | GetPendingCall int
  | MarkSentCall "string list"
  | CleanupCall duration

definition NewEnvelope ::
  "('w, 'f, 'x) collaborators \<Rightarrow> string \<Rightarrow> string \<Rightarrow> string \<Rightarrow> string \<Rightarrow> string
     \<Rightarrow> 'f DataPoint list \<Rightarrow> 'w \<Rightarrow> 'f Envelope \<times> 'w" where
  "NewEnvelope d stationID stationName deviceID deviceName deviceGroup vs w =
     (case uuid_New d w of
        (uuid, w1) \<Rightarrow>
          (case time_Now d w1 of
             (now, w2) \<Rightarrow>
               (\<lparr>ID = uuid, StationID = stationID, StationName = stationName, Timestamp = now,
                 DeviceID = deviceID, DeviceName = deviceName, DeviceGroup = deviceGroup,
                 Values = vs\<rparr>, w2)))"

text \<open>
  The second half of \<^verbatim>\<open>collectAndSend\<close>, the loop over the results channel:
  \<^verbatim>\<open>
  for data := range results {
      if len(data.DataPoints) == 0 { continue }
      envelope := model.NewEnvelope(m.stationCfg.StationID, ..., data.DataPoints)
      if err := m.sender.Send(ctx, envelope); err != nil {
          if m.bufferEnabled && m.buffer != nil {
              if bufErr := m.buffer.Store(ctx, envelope); bufErr != nil { log } else { log }
          }
      } else { log }
  }
  \<close>
\<close>

fun deliverResults ::
  "Manager \<Rightarrow> ('w, 'f, 'x) collaborators \<Rightarrow> 'f CollectedData list \<Rightarrow> 'w \<Rightarrow> 'f call list \<times> 'w" where
  "deliverResults m d [] w = ([], w)"
| "deliverResults m d (data # rest) w =
     (if length (DataPoints data) = 0 then deliverResults m d rest w
      else
        (case NewEnvelope d (m_StationID m) (m_StationName m) (cd_DeviceID data)
                (cd_DeviceName data) (cd_DeviceGroup data) (DataPoints data) w of
           (envelope, w1) \<Rightarrow>
             (case sender_Send d envelope w1 of
                (Some err, w2) \<Rightarrow>
                  if bufferEnabled m \<and> bufferPresent m then
                    (case buffer_Store d envelope w2 of
                       (bufErr, w3) \<Rightarrow>
                         (case deliverResults m d rest w3 of
                            (cs, w4) \<Rightarrow>
                              (Built envelope # SendCall envelope False
                                 # StoreCall envelope (bufErr = None) # cs, w4)))
                  else
                    (case deliverResults m d rest w2 of
                       (cs, w4) \<Rightarrow> (Built envelope # SendCall envelope False # cs, w4))
              | (None, w2) \<Rightarrow>
                  (case deliverResults m d rest w2 of
                     (cs, w4) \<Rightarrow> (Built envelope # SendCall envelope True # cs, w4)))))"

text \<open>
  The first half of \<^verbatim>\<open>collectAndSend\<close> starts one poll per device and sends every result
  that is not an error to the channel. The polls run concurrently; the input of the model
  is their outcomes in the order in which they finish.
\<close>

fun gathered :: "('x + 'a) list \<Rightarrow> 'a list" where
  "gathered [] = []"
| "gathered (Inl err # ps) = gathered ps"
| "gathered (Inr data # ps) = data # gathered ps"

definition collectAndSend ::
  "Manager \<Rightarrow> ('w, 'f, 'x) collaborators \<Rightarrow> ('x + 'f CollectedData) list \<Rightarrow> 'w
     \<Rightarrow> 'f call list \<times> 'w" where
  "collectAndSend m d polls w = deliverResults m d (gathered polls) w"

text \<open>
  The loop of \<^verbatim>\<open>processBufferedData\<close> over the pending envelopes:
  \<^verbatim>\<open>
  var sentIDs []string
  for _, envelope := range pending {
      if err := m.sender.Send(ctx, envelope); err != nil { break }
      sentIDs = append(sentIDs, envelope.ID)
  }
  \<close>
  It returns \<^verbatim>\<open>sentIDs\<close>, the calls made and the state.
\<close>

fun sendPending ::
  "('w, 'f, 'x) collaborators \<Rightarrow> 'f Envelope list \<Rightarrow> 'w \<Rightarrow> string list \<times> 'f call list \<times> 'w" where
  "sendPending d [] w = ([], [], w)"
| "sendPending d (envelope # rest) w =
     (case sender_Send d envelope w of
        (Some err, w1) \<Rightarrow> ([], [SendCall envelope False], w1)
      | (None, w1) \<Rightarrow>
          (case sendPending d rest w1 of
             (sentIDs, cs, w2) \<Rightarrow> (ID envelope # sentIDs, SendCall envelope True # cs, w2)))"

text \<open>
  \<^verbatim>\<open>
  pending, err := m.buffer.GetPending(ctx, 100)
  if err != nil { return }
  if len(pending) == 0 { return }
  ... the loop above ...
  if len(sentIDs) > 0 {
      if err := m.buffer.MarkSent(ctx, sentIDs); err != nil { log } else { log }
  }
  if err := m.buffer.Cleanup(ctx, m.cfg.Buffer.MaxAge); err != nil { log }
  \<close>
\<close>

definition processBufferedData ::
  "Manager \<Rightarrow> ('w, 'f, 'x) collaborators \<Rightarrow> 'w \<Rightarrow> 'f call list \<times> 'w" where
  "processBufferedData m d w =
     (case buffer_GetPending d 100 w of
        ((pending, Some err), w1) \<Rightarrow> ([GetPendingCall 100], w1)
      | ((pending, None), w1) \<Rightarrow>
          if length pending = 0 then ([GetPendingCall 100], w1)
          else
            (case sendPending d pending w1 of
               (sentIDs, cs, w2) \<Rightarrow>
                 (case (if length sentIDs > 0
                        then (case buffer_MarkSent d sentIDs w2 of
                                (err, w3) \<Rightarrow> ([MarkSentCall sentIDs], w3))
                        else ([], w2)) of
                    (ms, w3) \<Rightarrow>
                      (case buffer_Cleanup d (m_MaxAge m) w3 of
                         (err, w4) \<Rightarrow>
                           (GetPendingCall 100 # cs @ ms @ [CleanupCall (m_MaxAge m)], w4)))))"


text \<open>Projections of a trace of the manager: the sends, the acknowledgments, the evictions.\<close>

fun sendCalls :: "'f call list \<Rightarrow> ('f Envelope \<times> bool) list" where
  "sendCalls [] = []"
| "sendCalls (SendCall e ok # cs) = (e, ok) # sendCalls cs"
| "sendCalls (c # cs) = sendCalls cs"

fun markSentCalls :: "'f call list \<Rightarrow> string list list" where
  "markSentCalls [] = []"
| "markSentCalls (MarkSentCall ids # cs) = ids # markSentCalls cs"
| "markSentCalls (c # cs) = markSentCalls cs"

fun cleanupCalls :: "'f call list \<Rightarrow> duration list" where
  "cleanupCalls [] = []"
| "cleanupCalls (CleanupCall maxAge # cs) = maxAge # cleanupCalls cs"
| "cleanupCalls (c # cs) = cleanupCalls cs"

text \<open>The envelope a call is about, if any.\<close>

fun callEnvelope :: "'f call \<Rightarrow> 'f Envelope option" where
  "callEnvelope (Built e) = Some e"
| "callEnvelope (SendCall e ok) = Some e"
| "callEnvelope (StoreCall e ok) = Some e"
| "callEnvelope c = None"

definition nonEmptyPoll :: "'x + 'f CollectedData \<Rightarrow> bool" where
  "nonEmptyPoll p = (case p of Inl err \<Rightarrow> True | Inr data \<Rightarrow> DataPoints data \<noteq> [])"

section \<open>Concrete inputs\<close>

text \<open>
  The retry configuration of the defaults in \<^verbatim>\<open>config.go\<close> (5 attempts, 1s, 60s), and one
  whose initial delay (10s) is above its maximum delay (5s); nothing validates the two.
\<close>

definition defaultRetry :: RetryConfig where
  "defaultRetry = \<lparr>MaxAttempts = 5, InitialDelay = 1000000000, MaxDelay = 60000000000\<rparr>"



text \<open>An endpoint that answers every attempt with status 503.\<close>

definition alwaysFail :: "int \<Rightarrow> int option" where
  "alwaysFail attempt = Some 503"

text \<open>
  A field of the station configuration in the documentation of the repository (an alarm of
  type \<^verbatim>\<open>bool\<close> with severity \<^verbatim>\<open>critical\<close>), and a device response in which the value of its
  source is a string that \<^verbatim>\<open>strconv.ParseBool\<close> rejects.
\<close>

definition fireAlarmField :: FieldConfig where
  "fireAlarmField =
     \<lparr>Source = ''Gen1_Unit_Fire_Alarm'', Target = ''fire_alarm'', fc_Unit = '''',
      Type = ''bool'', fc_Severity = ''critical''\<rparr>"

definition garbledResponse :: "string \<rightharpoonup> 'f goval" where
  "garbledResponse = [''Gen1_Unit_Fire_Alarm'' \<mapsto> VString ''ERR'']"

text \<open>
  A codec for the examples. On the instants and documents it lists it formats and parses
  as Go's \<^verbatim>\<open>time\<close> and \<^verbatim>\<open>encoding/json\<close> do (the JSON texts are written without their
  double quotes): \<^verbatim>\<open>Format(time.RFC3339)\<close> drops the fraction of the second, and a JSON
  number unmarshalled into a \<^verbatim>\<open>Value\<close> of type \<^verbatim>\<open>any\<close> is a \<^verbatim>\<open>float64\<close>. Floating-point
  numbers are reals here.
\<close>

definition exampleInstants :: "(int \<times> string) list" where
  "exampleInstants =
     [(1769763600, ''2026-01-30T09:00:00Z''),
      (1769860810, ''2026-01-31T12:00:10Z''),
      (1769947190, ''2026-02-01T11:59:50Z''),
      (1769947200, ''2026-02-01T12:00:00Z''),
      (1769947210, ''2026-02-01T12:00:10Z'')]"

definition dpPower :: "real DataPoint" where
  "dpPower = \<lparr>Name = ''active_power_kw'', Value = VFloat64 2938, Unit = ''kW'',
              Quality = ''good'', Severity = ''''\<rparr>"

definition dpStarts :: "real DataPoint" where
  "dpStarts = \<lparr>Name = ''starts'', Value = VInt 5, Unit = '''',
               Quality = ''good'', Severity = ''''\<rparr>"

definition exampleDocuments :: "(real DataPoint list \<times> string \<times> real DataPoint list) list" where
  "exampleDocuments =
     [([dpPower], ''[{name:active_power_kw,value:2938,unit:kW,quality:good}]'', [dpPower]),
      ([dpStarts], ''[{name:starts,value:5,quality:good}]'',
         [dpStarts\<lparr>Value := VFloat64 5\<rparr>])]"

definition exampleCodec :: "real codec" where
  "exampleCodec =
     \<lparr>FormatRFC3339 = (\<lambda>t. case map_of exampleInstants (t div 1000000000) of
                               Some s \<Rightarrow> s | None \<Rightarrow> ''''),
      ParseRFC3339 = (\<lambda>s. case map_of (map (\<lambda>(sec, txt). (txt, sec)) exampleInstants) s of
                              Some sec \<Rightarrow> Some (sec * 1000000000) | None \<Rightarrow> None),
      Marshal = (\<lambda>vs. map_of (map (\<lambda>(v, txt, v'). (v, txt)) exampleDocuments) vs),
      Unmarshal = (\<lambda>s. map_of (map (\<lambda>(v, txt, v'). (txt, v')) exampleDocuments) s)\<rparr>"

text \<open>
  Two envelopes: one with a float value, captured at 12:00:00.25, and one with an integer
  value (as \<^verbatim>\<open>toInt\<close> produces), captured at 12:00:10 sharp.
\<close>

definition envPower :: "real Envelope" where
  "envPower =
     \<lparr>ID = ''id-1'', StationID = ''ges1'', StationName = ''GES-1'',
      Timestamp = 1769947200250000000, DeviceID = ''gen1_telemetry'',
      DeviceName = ''Generator 1'', DeviceGroup = ''generators'', Values = [dpPower]\<rparr>"


text \<open>
  A table of six rows, in insertion order: one that \<^verbatim>\<open>Store\<close> wrote for \<open>envPower\<close>, then one
  with a NULL station name, one whose timestamp is not RFC 3339 and one whose values are
  not JSON, then a well-formed row that is not pending (its flag \<^verbatim>\<open>sent\<close> is 1), and a second
  well-formed pending row, created before the first. The three malformed rows are the
  oldest pending ones.
\<close>

definition rowPower :: row where
  "rowPower =
     \<lparr>r_id = Some ''id-1'', r_station_id = ''ges1'', r_station_name = Some ''GES-1'',
      r_device_id = ''gen1_telemetry'', r_device_name = Some ''Generator 1'',
      r_device_group = Some ''generators'', r_timestamp = ''2026-02-01T12:00:00Z'',
      r_values_json = ''[{name:active_power_kw,value:2938,unit:kW,quality:good}]'',
      r_created_at = ''2026-02-01T12:00:10Z'', r_sent = Some 0\<rparr>"

definition mixedTable :: "row list" where
  "mixedTable =
     [rowPower,
      rowPower\<lparr>r_id := Some ''id-7'', r_station_name := None,
                r_created_at := ''2026-01-31T12:00:10Z''\<rparr>,
      rowPower\<lparr>r_id := Some ''id-8'', r_timestamp := ''yesterday'',
                r_created_at := ''2026-02-01T11:59:50Z''\<rparr>,
      rowPower\<lparr>r_id := Some ''id-9'', r_values_json := ''{'',
                r_created_at := ''2026-02-01T12:00:00Z''\<rparr>,
      rowPower\<lparr>r_id := Some ''id-5'', r_created_at := ''2026-01-30T09:00:00Z'',
                r_sent := Some 1\<rparr>,
      rowPower\<lparr>r_id := Some ''id-4'', r_created_at := ''2026-02-01T12:00:05Z''\<rparr>]"








text \<open>
  The collaborators as \<^verbatim>\<open>main\<close> wires them, over a state that holds the table of the SQLite
  buffer, the clock, the identifiers \<^verbatim>\<open>uuid.New\<close> will return and the answers of the endpoint
  to the coming \<^verbatim>\<open>Send\<close> calls (\<open>True\<close> is a delivery; no answer left is a failure).
\<close>

record world =
  w_table :: "row list"
  w_clock :: gotime
  w_uuids :: "string list"
  w_endpoint :: "bool list"

datatype sys_error = SendFailed | PollFailed | BufferError buffer_error

definition wired :: "'f codec \<Rightarrow> (world, 'f, sys_error) collaborators" where
  "wired lib =
     \<lparr>sender_Send = (\<lambda>e w. case w_endpoint w of
                        [] \<Rightarrow> (Some SendFailed, w)
                      | ok # rest \<Rightarrow>
                          (if ok then None else Some SendFailed, w\<lparr>w_endpoint := rest\<rparr>)),
      buffer_Store = (\<lambda>e w. case Store lib (w_clock w) (w_table w) e of
                         (err, tbl) \<Rightarrow> (map_option BufferError err, w\<lparr>w_table := tbl\<rparr>)),
      buffer_GetPending = (\<lambda>limit w. case GetPending lib (w_table w) limit of
                         (es, err) \<Rightarrow> ((es, map_option BufferError err), w)),
      buffer_MarkSent = (\<lambda>ids w. case MarkSent (w_table w) ids of
                         (err, tbl) \<Rightarrow> (map_option BufferError err, w\<lparr>w_table := tbl\<rparr>)),
      buffer_Cleanup = (\<lambda>maxAge w. case Cleanup lib (w_clock w) (w_table w) maxAge of
                         (err, tbl) \<Rightarrow> (map_option BufferError err, w\<lparr>w_table := tbl\<rparr>)),
      uuid_New = (\<lambda>w. case w_uuids w of
                         [] \<Rightarrow> ('''', w)
                       | u # us \<Rightarrow> (u, w\<lparr>w_uuids := us\<rparr>)),
      time_Now = (\<lambda>w. (w_clock w, w))\<rparr>"

text \<open>The manager of station ges1 with the default maximum age of 24 hours.\<close>

definition exampleManager :: Manager where
  "exampleManager =
     \<lparr>m_StationID = ''ges1'', m_StationName = ''GES-1'', bufferEnabled = True,
      bufferPresent = True, m_MaxAge = 86400000000000\<rparr>"




text \<open>
  A round of three polls: a device that reported nothing, a failed poll and a device with
  one measurement; the endpoint takes the envelope.
\<close>

definition roundPolls :: "(sys_error + real CollectedData) list" where
  "roundPolls =
     [Inr \<lparr>cd_DeviceID = ''gen1_alarms'', cd_DeviceName = ''Alarms 1'',
           cd_DeviceGroup = ''alarms'', DataPoints = []\<rparr>,
      Inl PollFailed,
      Inr \<lparr>cd_DeviceID = ''gen1_telemetry'', cd_DeviceName = ''Generator 1'',
           cd_DeviceGroup = ''generators'', DataPoints = [dpPower]\<rparr>]"

definition roundWorld :: world where
  "roundWorld =
     \<lparr>w_table = [], w_clock = 1769947200250000000, w_uuids = [''id-1''],
      w_endpoint = [True]\<rparr>"

section \<open>The retry loop and its backoff\<close>

declare sendLoop.simps [simp del]






text \<open>The delays the loop waits are the schedule, from its start.\<close>

lemma sendLoop_waits:
  "waits (snd (sendLoop r doSend ctxDone a (delaySchedule r k) le)) =
     map (delaySchedule r) [k..<k + length (waits (snd (sendLoop r doSend ctxDone a (delaySchedule r k) le)))]"
proof (induction r doSend ctxDone a "delaySchedule r k" le arbitrary: k rule: sendLoop.induct)
  case (1 r doSend ctxDone attempt lastErr)
  show ?case
  proof (cases "attempt \<le> MaxAttempts r")
    case False
    then show ?thesis by (subst (1 2) sendLoop.simps) simp
  next
    case le: True
    show ?thesis
    proof (cases "doSend attempt")
      case None
      with le show ?thesis by (subst (1 2) sendLoop.simps) simp
    next
      case (Some err)
      show ?thesis
      proof (cases "attempt < MaxAttempts r")
        case lt: True
        show ?thesis
        proof (cases "ctxDone attempt")
          case True
          with le Some lt show ?thesis by (subst (1 2) sendLoop.simps) simp
        next
          case False
          have "waits (snd (sendLoop r doSend ctxDone (attempt + 1) (delaySchedule r (Suc k)) (Some err))) =
            map (delaySchedule r) [Suc k..<Suc k + length (waits (snd (sendLoop r doSend ctxDone (attempt + 1) (delaySchedule r (Suc k)) (Some err))))]"
            using "1.hyps"(1)[OF le Some lt False, of "Suc k"] by simp
          with le Some lt False show ?thesis
            by (subst (1 2) sendLoop.simps) (auto split: prod.splits simp: upt_rec[of k])
        qed
      next
        case nlt: False
        from "1.hyps"(2)[OF le Some nlt, of k] le Some nlt show ?thesis
          by (subst (1 2) sendLoop.simps) (auto split: prod.splits)
      qed
    qed
  qed
qed

lemma sendWithRetry_waits:
  "waits (snd (sendWithRetry r doSend ctxDone)) =
     map (delaySchedule r) [0..<length (waits (snd (sendWithRetry r doSend ctxDone)))]"
  using sendLoop_waits[of r doSend ctxDone 1 0 None] by (simp add: sendWithRetry_def)

lemma sendLoop_cancel:
  assumes "a \<le> k" "k < MaxAttempts r"
    and "\<forall>i. a \<le> i \<and> i \<le> k \<longrightarrow> doSend i \<noteq> None"
    and "\<forall>i. a \<le> i \<and> i < k \<longrightarrow> \<not> ctxDone i"
    and "ctxDone k"
  shows "fst (sendLoop r doSend ctxDone a d le) = Some CtxErr
       \<and> attempts (snd (sendLoop r doSend ctxDone a d le)) = [a..k]"
  using assms
proof (induction r doSend ctxDone a d le rule: sendLoop.induct)
  case (1 r doSend ctxDone attempt delay lastErr)
  from "1.prems" obtain err where err: "doSend attempt = Some err" by auto
  have le: "attempt \<le> MaxAttempts r" "attempt < MaxAttempts r" using "1.prems" by auto
  show ?case
  proof (cases "ctxDone attempt")
    case True
    with "1.prems" have "attempt = k" by (metis order_le_less)
    with True err le show ?thesis
      by (subst (1 2) sendLoop.simps) simp
  next
    case False
    with "1.prems" have lt: "attempt + 1 \<le> k" by (metis order_le_less zless_add1_eq not_less)
    have IH: "fst (sendLoop r doSend ctxDone (attempt + 1) (nextDelay r delay) (Some err)) = Some CtxErr \<and>
        attempts (snd (sendLoop r doSend ctxDone (attempt + 1) (nextDelay r delay) (Some err))) = [attempt + 1..k]"
      using "1.IH"(1)[OF le(1) err le(2) False lt] "1.prems" by auto
    have up: "[attempt..k] = attempt # [attempt + 1..k]"
      using lt by (simp add: upto_rec1)
    show ?thesis
      using IH err le False up
      by (subst (1 2) sendLoop.simps) (auto split: prod.splits)
  qed
qed

lemma sendLoop_aggregate:
  assumes "sendLoop r doSend ctxDone a d le = (Some (AllAttemptsFailed n c), evs)"
  shows "n = MaxAttempts r
       \<and> (\<forall>i. a \<le> i \<and> i \<le> MaxAttempts r \<longrightarrow> doSend i \<noteq> None)
       \<and> attempts evs = [a..MaxAttempts r]
       \<and> c = (if a \<le> MaxAttempts r then doSend (MaxAttempts r) else le)"
  using assms
proof (induction r doSend ctxDone a d le arbitrary: evs rule: sendLoop.induct)
  case (1 r doSend ctxDone attempt delay lastErr)
  show ?case
  proof (cases "attempt \<le> MaxAttempts r")
    case False
    with "1.prems" show ?thesis
      by (subst (asm) sendLoop.simps) auto
  next
    case le: True
    from "1.prems" le obtain err where err: "doSend attempt = Some err"
      by (subst (asm) sendLoop.simps) (auto split: option.splits)
    have up: "[attempt..MaxAttempts r] = attempt # [attempt + 1..MaxAttempts r]"
      using le by (simp add: upto_rec1)
    have step: "\<And>P. (\<forall>i. attempt + 1 \<le> i \<and> i \<le> MaxAttempts r \<longrightarrow> P i) \<Longrightarrow> P attempt
          \<Longrightarrow> (\<forall>i. attempt \<le> i \<and> i \<le> MaxAttempts r \<longrightarrow> P i)"
      by (metis order_le_less zless_add1_eq not_less add1_zle_eq)
    show ?thesis
    proof (cases "attempt < MaxAttempts r")
      case lt: True
      from "1.prems" le err lt have nd: "\<not> ctxDone attempt"
        by (subst (asm) sendLoop.simps) (auto split: if_splits)
      from "1.prems" le err lt nd obtain evs' where
        rec: "sendLoop r doSend ctxDone (attempt + 1) (nextDelay r delay) (Some err) = (Some (AllAttemptsFailed n c), evs')"
        and evs: "evs = DoSend attempt # Wait delay # evs'"
        by (subst (asm) sendLoop.simps) (auto split: prod.splits)
      from "1.IH"(1)[OF le err lt nd rec] err evs up le lt step[of "\<lambda>i. doSend i \<noteq> None"]
      show ?thesis by simp
    next
      case nlt: False
      with le have eq: "attempt = MaxAttempts r" by simp
      from "1.prems" le err nlt obtain evs' where
        rec: "sendLoop r doSend ctxDone (attempt + 1) delay (Some err) = (Some (AllAttemptsFailed n c), evs')"
        and evs: "evs = DoSend attempt # evs'"
        by (subst (asm) sendLoop.simps) (auto split: prod.splits)
      from "1.IH"(2)[OF le err nlt rec] err evs up eq step[of "\<lambda>i. doSend i \<noteq> None"]
      show ?thesis by simp
    qed
  qed
qed














text \<open>
  C9. If every attempt up to number \<open>k\<close> fails, \<open>k\<close> is not the last attempt, and the
  cancellation signal fires in the wait after attempt \<open>k\<close> (and in no earlier wait), then
  \<^verbatim>\<open>sendWithRetry\<close> returns the context's error and has made the attempts 1 to \<open>k\<close> only.
  If it returns the aggregate error, then the count in it is the configured maximum, every
  attempt from 1 to the maximum was made and failed, and the cause in it is the error of
  the last attempt.
\<close>

theorem sendWithRetry_cancel_or_aggregate:
  "(1 \<le> k \<and> k < MaxAttempts r \<and> (\<forall>i. 1 \<le> i \<and> i \<le> k \<longrightarrow> doSend i \<noteq> None)
      \<and> (\<forall>i. 1 \<le> i \<and> i < k \<longrightarrow> \<not> ctxDone i) \<and> ctxDone k
     \<longrightarrow> fst (sendWithRetry r doSend ctxDone) = Some CtxErr
         \<and> attempts (snd (sendWithRetry r doSend ctxDone)) = [1..k])
   \<and> (fst (sendWithRetry r doSend ctxDone) = Some (AllAttemptsFailed n c)
     \<longrightarrow> n = MaxAttempts r
         \<and> (\<forall>i. 1 \<le> i \<and> i \<le> MaxAttempts r \<longrightarrow> doSend i \<noteq> None)
         \<and> attempts (snd (sendWithRetry r doSend ctxDone)) = [1..MaxAttempts r]
         \<and> (1 \<le> MaxAttempts r \<longrightarrow> c = doSend (MaxAttempts r)))"
proof (intro conjI impI)
  assume h: "1 \<le> k \<and> k < MaxAttempts r \<and> (\<forall>i. 1 \<le> i \<and> i \<le> k \<longrightarrow> doSend i \<noteq> None)
      \<and> (\<forall>i. 1 \<le> i \<and> i < k \<longrightarrow> \<not> ctxDone i) \<and> ctxDone k"
  then have c: "fst (sendLoop r doSend ctxDone 1 (InitialDelay r) None) = Some CtxErr
       \<and> attempts (snd (sendLoop r doSend ctxDone 1 (InitialDelay r) None)) = [1..k]"
    by (intro sendLoop_cancel) auto
  from c show "fst (sendWithRetry r doSend ctxDone) = Some CtxErr"
    by (simp add: sendWithRetry_def)
  from c show "attempts (snd (sendWithRetry r doSend ctxDone)) = [1..k]"
    by (simp add: sendWithRetry_def)
next
  assume "fst (sendWithRetry r doSend ctxDone) = Some (AllAttemptsFailed n c)"
  then have "sendLoop r doSend ctxDone 1 (InitialDelay r) None
      = (Some (AllAttemptsFailed n c), snd (sendWithRetry r doSend ctxDone))"
    by (simp add: sendWithRetry_def prod_eq_iff)
  note agg = sendLoop_aggregate[OF this]
  from agg show "n = MaxAttempts r" by simp
  from agg show "\<forall>i. 1 \<le> i \<and> i \<le> MaxAttempts r \<longrightarrow> doSend i \<noteq> None" by simp
  from agg show "attempts (snd (sendWithRetry r doSend ctxDone)) = [1..MaxAttempts r]" by simp
  assume "1 \<le> MaxAttempts r"
  with agg show "c = doSend (MaxAttempts r)" by simp
qed

theorem sendWithRetry_cancel_or_aggregate_witness:
  "fst (sendWithRetry defaultRetry alwaysFail (\<lambda>i. i = 2)) = Some CtxErr
   \<and> attempts (snd (sendWithRetry defaultRetry alwaysFail (\<lambda>i. i = 2))) = [1, 2]
   \<and> fst (sendWithRetry defaultRetry alwaysFail (\<lambda>i. False)) = Some (AllAttemptsFailed 5 (Some 503))
   \<and> attempts (snd (sendWithRetry defaultRetry alwaysFail (\<lambda>i. False))) = [1, 2, 3, 4, 5]"
proof -
  have r: "fst (sendWithRetry defaultRetry alwaysFail (\<lambda>i. False)) = Some (AllAttemptsFailed 5 (Some 503))"
    by (simp add: sendWithRetry_def sendLoop.simps defaultRetry_def alwaysFail_def)
  have u: "[1..2] = [1, 2::int]" "[1..5] = [1, 2, 3, 4, 5::int]"
    by (simp_all add: upto_rec1)
  from sendWithRetry_cancel_or_aggregate[of 2 defaultRetry alwaysFail "\<lambda>i. i = 2" 5 "Some 503"]
       sendWithRetry_cancel_or_aggregate[of 1 defaultRetry alwaysFail "\<lambda>i. False" 5 "Some 503"] r u
  show ?thesis
    by (simp add: defaultRetry_def alwaysFail_def)
qed

section \<open>The health probe of the sender\<close>

text \<open>
  C4, as amended. The sender's health check has two outcomes: a probe that fails (the
  request cannot be built, a transport-level failure, or a response with a status of 500
  or above) reports degraded, and every other response reports healthy. It never reports
  unhealthy.
\<close>

theorem sender_health_two_outcomes:
  "fst (SenderHealthChecker_Check Health TransportFailure) = StatusDegraded
   \<and> fst (SenderHealthChecker_Check Health RequestNotCreated) = StatusDegraded
   \<and> fst (SenderHealthChecker_Check Health (Response code))
       = (if code \<ge> 500 then StatusDegraded else StatusHealthy)
   \<and> fst (SenderHealthChecker_Check Health p) \<noteq> StatusUnhealthy"
  by (cases p) (simp_all add: SenderHealthChecker_Check_def)

theorem sender_health_two_outcomes_witness:
  "fst (SenderHealthChecker_Check Health (Response 503)) = StatusDegraded
   \<and> fst (SenderHealthChecker_Check Health (Response 404)) = StatusHealthy"
  using sender_health_two_outcomes[of 503] sender_health_two_outcomes[of 404]
  by simp

text \<open>
  C4 as stated fails: for a response with status 500 the checker reports degraded (with the
  message of the error \<^verbatim>\<open>server unhealthy: status 500\<close>), not unhealthy.
\<close>

theorem sender_health_counterexample:
  "SenderHealthChecker_Check Health (Response 500) = (StatusDegraded, Some (ServerUnhealthy 500))
   \<and> fst (SenderHealthChecker_Check Health (Response 500)) \<noteq> StatusUnhealthy"
  by (simp add: SenderHealthChecker_Check_def)

section \<open>The conversions of the adapter\<close>

lemma toFloat_nil_iff_bad:
  "toFloat lib v = (x, q) \<Longrightarrow>
     (x = VNil) = (q = QualityBad) \<and> (q = QualityBad \<or> q = QualityGood)"
  by (cases v) (auto simp: QualityGood_def QualityBad_def split: option.splits)

lemma toInt_nil_iff_bad:
  "toInt lib v = (x, q) \<Longrightarrow>
     (x = VNil) = (q = QualityBad) \<and> (q = QualityBad \<or> q = QualityGood)"
  by (cases v) (auto simp: QualityGood_def QualityBad_def split: option.splits)

lemma toBool_nil_iff_bad:
  "toBool lib v = (x, q) \<Longrightarrow>
     (x = VNil) = (q = QualityBad) \<and> (q = QualityBad \<or> q = QualityGood)"
  by (cases v) (auto simp: QualityGood_def QualityBad_def split: option.splits)

text \<open>
  Every data point of \<^verbatim>\<open>transformData\<close> has quality bad or good, and it has a nil value
  exactly when its quality is bad; a source missing from the response gives bad.
\<close>

lemma convertValue_nil_iff_bad:
  "convertValue lib raw ty = (x, q) \<Longrightarrow>
     (x = VNil) = (q = QualityBad) \<and> (q = QualityBad \<or> q = QualityGood)"
  using toFloat_nil_iff_bad[of lib raw x q] toInt_nil_iff_bad[of lib raw x q]
    toBool_nil_iff_bad[of lib raw x q]
  by (auto simp: convertValue_def QualityGood_def QualityBad_def split: if_splits)

lemma transformField_nil_iff_bad:
  "(Value (transformField lib rawData field) = VNil)
     = (Quality (transformField lib rawData field) = QualityBad)"
  using convertValue_nil_iff_bad[of lib _ "Type field"]
  by (auto simp: transformField_def split: option.splits prod.splits)

lemma transformField_missing:
  "rawData (Source field) = None \<Longrightarrow>
     Value (transformField lib rawData field) = VNil
     \<and> Quality (transformField lib rawData field) = QualityBad"
  by (simp add: transformField_def)

lemma toFloat_unparseable:
  "ParseFloat lib s = None \<Longrightarrow> convertValue lib (VString s) ''float'' = (VNil, QualityBad)"
  by (simp add: convertValue_def)

lemma toInt_unparseable:
  "Atoi lib s = None \<Longrightarrow> convertValue lib (VString s) ''int'' = (VNil, QualityBad)"
  by (simp add: convertValue_def)

text \<open>
  C2 fails for a field of type \<^verbatim>\<open>bool\<close>: when the source value is a string that
  \<^verbatim>\<open>strconv.ParseBool\<close> rejects, such as \<^verbatim>\<open>ERR\<close>, \<^verbatim>\<open>toBool\<close> returns the value \<^verbatim>\<open>false\<close> with
  quality good, where \<^verbatim>\<open>toFloat\<close> and \<^verbatim>\<open>toInt\<close> return nil with quality bad.
\<close>

theorem toBool_unparseable_string_is_good:
  "ParseBool ''ERR'' = None
   \<and> convertValue lib (VString ''ERR'') ''bool'' = (VBool False, QualityGood)
   \<and> transformData lib garbledResponse [fireAlarmField]
       = [\<lparr>Name = ''fire_alarm'', Value = VBool False, Unit = '''',
           Quality = QualityGood, Severity = ''critical''\<rparr>]"
  by (simp add: ParseBool_def convertValue_def transformField_def garbledResponse_def
      fireAlarmField_def)

section \<open>The SQLite buffer\<close>

lemma scanRow_None_iff: "scanRow lib r = None \<longleftrightarrow> \<not> wellFormed lib r"
  by (auto simp: scanRow_def wellFormed_def split: option.splits)

lemma scanRows_filter:
  "scanRows lib rs = map (\<lambda>r. the (scanRow lib r)) (filter (wellFormed lib) rs)"
proof (induction rs)
  case Nil
  then show ?case by simp
next
  case (Cons r rs)
  then show ?case
    using scanRow_None_iff[of lib r] by (cases "scanRow lib r") auto
qed

lemma scanRow_ID: "scanRow lib r = Some e \<Longrightarrow> r_id r = Some (ID e)"
  by (auto simp: scanRow_def split: option.splits)

text \<open>The rows a fetch selects are in non-decreasing order of creation time.\<close>

lemma pendingRows_sorted: "sorted (map r_created_at (pendingRows tbl limit))"
  by (simp add: pendingRows_def Let_def take_map[symmetric] sorted_wrt_take)

lemma scanRow_wellFormed:
  "wellFormed lib r \<Longrightarrow>
     scanRow lib r =
       Some \<lparr>ID = the (r_id r), StationID = r_station_id r,
             StationName = the (r_station_name r),
             Timestamp = the (ParseRFC3339 lib (r_timestamp r)),
             DeviceID = r_device_id r, DeviceName = the (r_device_name r),
             DeviceGroup = the (r_device_group r),
             Values = the (Unmarshal lib (r_values_json r))\<rparr>"
  by (auto simp: scanRow_def wellFormed_def)

text \<open>
  C10. \<^verbatim>\<open>GetPending\<close> returns no error whatever rows the table holds. The query selects the
  rows with \<^verbatim>\<open>sent = 0\<close>, oldest first, and cuts them at the limit (a negative limit cuts
  nothing); of the selected rows the result holds, in that order, one envelope for each
  well-formed row, built from its columns, and nothing for a row that is not well formed
  (a NULL where a string is scanned, a timestamp that does not parse, values that do not
  unmarshal). So every envelope returned comes from a pending, well-formed row of the
  table; and when the limit covers the pending rows, every pending, well-formed row is
  returned. The limit is applied before the rows are skipped: a skipped row takes one of
  the places, and a well-formed pending row behind \<open>limit\<close> older rows is not returned.
\<close>

theorem GetPending_skips_malformed_rows:
  "snd (GetPending lib tbl limit) = None
   \<and> fst (GetPending lib tbl limit)
       = map (\<lambda>r. \<lparr>ID = the (r_id r), StationID = r_station_id r,
                    StationName = the (r_station_name r),
                    Timestamp = the (ParseRFC3339 lib (r_timestamp r)),
                    DeviceID = r_device_id r, DeviceName = the (r_device_name r),
                    DeviceGroup = the (r_device_group r),
                    Values = the (Unmarshal lib (r_values_json r))\<rparr>)
           (filter (wellFormed lib)
              (if limit < 0
               then sort_key r_created_at (filter (\<lambda>r. r_sent r = Some 0) tbl)
               else take (nat limit)
                      (sort_key r_created_at (filter (\<lambda>r. r_sent r = Some 0) tbl))))
   \<and> (\<forall>e\<in>set (fst (GetPending lib tbl limit)).
         \<exists>r\<in>set tbl. r_sent r = Some 0 \<and> wellFormed lib r \<and> scanRow lib r = Some e)
   \<and> (limit < 0 \<or> int (length (filter (\<lambda>r. r_sent r = Some 0) tbl)) \<le> limit \<longrightarrow>
        (\<forall>r\<in>set tbl. r_sent r = Some 0 \<and> wellFormed lib r \<longrightarrow>
           the (scanRow lib r) \<in> set (fst (GetPending lib tbl limit))))"
proof -
  define sel where "sel = (if limit < 0
               then sort_key r_created_at (filter (\<lambda>r. r_sent r = Some 0) tbl)
               else take (nat limit)
                      (sort_key r_created_at (filter (\<lambda>r. r_sent r = Some 0) tbl)))"
  have sel: "pendingRows tbl limit = sel"
    by (simp add: pendingRows_def sel_def Let_def)
  have res: "fst (GetPending lib tbl limit)
      = map (\<lambda>r. the (scanRow lib r)) (filter (wellFormed lib) sel)"
    by (simp add: GetPending_def scanRows_filter sel)
  have sub: "set sel \<subseteq> {r \<in> set tbl. r_sent r = Some 0}"
  proof (cases "limit < 0")
    case True
    then show ?thesis by (auto simp: sel_def)
  next
    case False
    then have "set sel \<subseteq> set (sort_key r_created_at (filter (\<lambda>r. r_sent r = Some 0) tbl))"
      using set_take_subset[of "nat limit"
          "sort_key r_created_at (filter (\<lambda>r. r_sent r = Some 0) tbl)"]
      by (simp add: sel_def)
    then show ?thesis by auto
  qed
  have c1: "snd (GetPending lib tbl limit) = None"
    by (simp add: GetPending_def)
  have c2: "fst (GetPending lib tbl limit)
       = map (\<lambda>r. \<lparr>ID = the (r_id r), StationID = r_station_id r,
                    StationName = the (r_station_name r),
                    Timestamp = the (ParseRFC3339 lib (r_timestamp r)),
                    DeviceID = r_device_id r, DeviceName = the (r_device_name r),
                    DeviceGroup = the (r_device_group r),
                    Values = the (Unmarshal lib (r_values_json r))\<rparr>)
           (filter (wellFormed lib) sel)"
    unfolding res by (rule map_cong) (auto simp: scanRow_wellFormed)
  have c3: "\<forall>e\<in>set (fst (GetPending lib tbl limit)).
         \<exists>r\<in>set tbl. r_sent r = Some 0 \<and> wellFormed lib r \<and> scanRow lib r = Some e"
  proof
    fix e
    assume "e \<in> set (fst (GetPending lib tbl limit))"
    then obtain r where r: "r \<in> set sel" "wellFormed lib r" "e = the (scanRow lib r)"
      unfolding res by auto
    from r(2) have "scanRow lib r = Some e"
      using scanRow_None_iff[of lib r] r(3) by auto
    with r sub show "\<exists>r\<in>set tbl. r_sent r = Some 0 \<and> wellFormed lib r \<and> scanRow lib r = Some e"
      by auto
  qed
  have c4: "limit < 0 \<or> int (length (filter (\<lambda>r. r_sent r = Some 0) tbl)) \<le> limit \<longrightarrow>
        (\<forall>r\<in>set tbl. r_sent r = Some 0 \<and> wellFormed lib r \<longrightarrow>
           the (scanRow lib r) \<in> set (fst (GetPending lib tbl limit)))"
  proof (intro impI ballI)
    fix r
    assume cov: "limit < 0 \<or> int (length (filter (\<lambda>r. r_sent r = Some 0) tbl)) \<le> limit"
      and r: "r \<in> set tbl" "r_sent r = Some 0 \<and> wellFormed lib r"
    from cov have "sel = sort_key r_created_at (filter (\<lambda>r. r_sent r = Some 0) tbl)"
      by (auto simp: sel_def)
    with r have "r \<in> set (filter (wellFormed lib) sel)" by simp
    then show "the (scanRow lib r) \<in> set (fst (GetPending lib tbl limit))"
      unfolding res by simp
  qed
  from c1 c2 c3 c4 show ?thesis unfolding sel_def by blast
qed

theorem GetPending_skips_malformed_rows_witness:
  "snd (GetPending exampleCodec mixedTable 100) = None
   \<and> fst (GetPending exampleCodec mixedTable 100)
       = [envPower\<lparr>ID := ''id-4'', Timestamp := 1769947200000000000\<rparr>,
          envPower\<lparr>Timestamp := 1769947200000000000\<rparr>]
   \<and> fst (GetPending exampleCodec mixedTable 4)
       = [envPower\<lparr>ID := ''id-4'', Timestamp := 1769947200000000000\<rparr>]
   \<and> fst (GetPending exampleCodec mixedTable 3) = []
   \<and> map (wellFormed exampleCodec) mixedTable = [True, False, False, False, True, True]
   \<and> map r_sent mixedTable = [Some 0, Some 0, Some 0, Some 0, Some 1, Some 0]"
proof -
  have p: "filter (wellFormed exampleCodec)
             (if (100::int) < 0
              then sort_key r_created_at (filter (\<lambda>r. r_sent r = Some 0) mixedTable)
              else take (nat 100)
                     (sort_key r_created_at (filter (\<lambda>r. r_sent r = Some 0) mixedTable)))
           = [rowPower\<lparr>r_id := Some ''id-4'', r_created_at := ''2026-02-01T12:00:05Z''\<rparr>,
              rowPower]"
    "filter (wellFormed exampleCodec)
             (if (4::int) < 0
              then sort_key r_created_at (filter (\<lambda>r. r_sent r = Some 0) mixedTable)
              else take (nat 4)
                     (sort_key r_created_at (filter (\<lambda>r. r_sent r = Some 0) mixedTable)))
           = [rowPower\<lparr>r_id := Some ''id-4'', r_created_at := ''2026-02-01T12:00:05Z''\<rparr>]"
    "filter (wellFormed exampleCodec)
             (if (3::int) < 0
              then sort_key r_created_at (filter (\<lambda>r. r_sent r = Some 0) mixedTable)
              else take (nat 3)
                     (sort_key r_created_at (filter (\<lambda>r. r_sent r = Some 0) mixedTable)))
           = []"
    by code_simp+
  have w: "map (wellFormed exampleCodec) mixedTable = [True, False, False, False, True, True]"
    "map r_sent mixedTable = [Some 0, Some 0, Some 0, Some 0, Some 1, Some 0]"
    by code_simp+
  note t100 = GetPending_skips_malformed_rows[of exampleCodec mixedTable 100]
  note t4 = GetPending_skips_malformed_rows[of exampleCodec mixedTable 4]
  note t3 = GetPending_skips_malformed_rows[of exampleCodec mixedTable 3]
  have r100: "fst (GetPending exampleCodec mixedTable 100)
       = [envPower\<lparr>ID := ''id-4'', Timestamp := 1769947200000000000\<rparr>,
          envPower\<lparr>Timestamp := 1769947200000000000\<rparr>]"
    unfolding t100[THEN conjunct2, THEN conjunct1] p(1) by code_simp
  have r4: "fst (GetPending exampleCodec mixedTable 4)
       = [envPower\<lparr>ID := ''id-4'', Timestamp := 1769947200000000000\<rparr>]"
    unfolding t4[THEN conjunct2, THEN conjunct1] p(2) by code_simp
  have r3: "fst (GetPending exampleCodec mixedTable 3) = []"
    unfolding t3[THEN conjunct2, THEN conjunct1] p(3) by simp
  from t100[THEN conjunct1] r100 r4 r3 w show ?thesis by simp
qed

text \<open>
  C3, as amended. Storing a record whose identifier already exists in the table fails:
  \<^verbatim>\<open>Store\<close> returns an error (the failed \<^verbatim>\<open>INSERT\<close>, when the values marshal) and the table
  is unchanged.
\<close>

theorem Store_existing_id_fails:
  assumes "Some (ID e) \<in> set (map r_id tbl)"
  shows "fst (Store lib now tbl e) \<noteq> None \<and> snd (Store lib now tbl e) = tbl
         \<and> (Marshal lib (Values e) \<noteq> None
              \<longrightarrow> fst (Store lib now tbl e) = Some StoreEnvelopeFailed)"
  using assms by (auto simp: Store_def split: option.splits)

lemma Store_ok_table:
  "Store lib now tbl e = (None, tbl') \<Longrightarrow>
     Some (ID e) \<notin> set (map r_id tbl) \<and>
     (\<exists>js. Marshal lib (Values e) = Some js \<and>
       tbl' = tbl @ [\<lparr>r_id = Some (ID e), r_station_id = StationID e,
                      r_station_name = Some (StationName e), r_device_id = DeviceID e,
                      r_device_name = Some (DeviceName e),
                      r_device_group = Some (DeviceGroup e),
                      r_timestamp = FormatRFC3339 lib (Timestamp e), r_values_json = js,
                      r_created_at = FormatRFC3339 lib now, r_sent = Some 0\<rparr>])"
  by (auto simp: Store_def split: option.splits if_splits)

lemma Store_first:
  "Store exampleCodec 1769947210000000000 [] envPower = (None, [rowPower])"
  by code_simp

theorem Store_existing_id_fails_witness:
  "fst (Store exampleCodec 1769947210000000000 [] envPower) = None
   \<and> fst (Store exampleCodec 1769947210000000000
           (snd (Store exampleCodec 1769947210000000000 [] envPower)) envPower)
       = Some StoreEnvelopeFailed
   \<and> snd (Store exampleCodec 1769947210000000000
           (snd (Store exampleCodec 1769947210000000000 [] envPower)) envPower)
       = [rowPower]"
proof -
  have i: "Some (ID envPower) \<in> set (map r_id [rowPower])"
    by (simp add: envPower_def rowPower_def)
  have m: "Marshal exampleCodec (Values envPower) \<noteq> None"
    by code_simp
  from Store_existing_id_fails[OF i, of exampleCodec 1769947210000000000] m Store_first
  show ?thesis by simp
qed

text \<open>
  C3 as stated fails: the second \<^verbatim>\<open>Store\<close> of the same envelope returns an error.
\<close>

theorem Store_idempotent_counterexample:
  "\<not> (fst (Store exampleCodec 1769947210000000000
             (snd (Store exampleCodec 1769947200000000000 [] envPower)) envPower) = None)"
  by code_simp

lemma scanRows_filter_ID:
  "filter (\<lambda>e'. ID e' = i) (scanRows lib rs)
     = scanRows lib (filter (\<lambda>r. r_id r = Some i) rs)"
proof (induction rs)
  case Nil
  then show ?case by simp
next
  case (Cons r rs)
  show ?case
  proof (cases "scanRow lib r")
    case None
    with Cons show ?thesis by simp
  next
    case (Some e')
    with Cons scanRow_ID[OF Some] show ?thesis by auto
  qed
qed

text \<open>
  What the buffer itself does to an envelope between \<^verbatim>\<open>Store\<close> and \<^verbatim>\<open>GetPending\<close>, for any
  codec: the identifier, station and device fields are copied, the timestamp is parsed from
  the formatted text and the values are unmarshalled from the marshalled text.
\<close>

lemma Store_GetPending_glue:
  assumes "Store lib now tbl e = (None, tbl')"
    and "limit < 0 \<or> int (length (filter (\<lambda>r. r_sent r = Some 0) tbl')) \<le> limit"
    and "ParseRFC3339 lib (FormatRFC3339 lib (Timestamp e)) = Some ts"
    and "Marshal lib (Values e) = Some js" and "Unmarshal lib js = Some vs"
  shows "filter (\<lambda>e'. ID e' = ID e) (fst (GetPending lib tbl' limit))
           = [e\<lparr>Timestamp := ts, Values := vs\<rparr>]"
proof -
  define new where "new = \<lparr>r_id = Some (ID e), r_station_id = StationID e,
                      r_station_name = Some (StationName e), r_device_id = DeviceID e,
                      r_device_name = Some (DeviceName e),
                      r_device_group = Some (DeviceGroup e),
                      r_timestamp = FormatRFC3339 lib (Timestamp e), r_values_json = js,
                      r_created_at = FormatRFC3339 lib now, r_sent = Some 0\<rparr>"
  from Store_ok_table[OF assms(1)] assms(4)
  have fresh: "Some (ID e) \<notin> set (map r_id tbl)" and tbl': "tbl' = tbl @ [new]"
    by (auto simp: new_def)
  have all: "pendingRows tbl' limit = sort_key r_created_at (filter (\<lambda>r. r_sent r = Some 0) tbl')"
    using assms(2) by (auto simp: pendingRows_def Let_def)
  have none: "filter (\<lambda>r. r_id r = Some (ID e)) (filter (\<lambda>r. r_sent r = Some 0) tbl) = []"
    using fresh by (force simp: filter_empty_conv image_iff)
  have "filter (\<lambda>r. r_id r = Some (ID e)) (pendingRows tbl' limit)
      = sort_key r_created_at (filter (\<lambda>r. r_id r = Some (ID e)) (filter (\<lambda>r. r_sent r = Some 0) tbl'))"
    by (simp only: all filter_sort)
  also have "\<dots> = [new]"
    using none by (simp add: tbl' new_def)
  finally have sel: "filter (\<lambda>r. r_id r = Some (ID e)) (pendingRows tbl' limit) = [new]" .
  have scan: "scanRow lib new = Some (e\<lparr>Timestamp := ts, Values := vs\<rparr>)"
    using assms(3,5) by (simp add: scanRow_def new_def)
  show ?thesis
    by (simp add: GetPending_def scanRows_filter_ID sel scan)
qed











lemma jsonDecoded_fields:
  "Name (jsonDecoded float64_of dp) = Name dp \<and> Unit (jsonDecoded float64_of dp) = Unit dp
   \<and> Quality (jsonDecoded float64_of dp) = Quality dp
   \<and> Severity (jsonDecoded float64_of dp) = Severity dp
   \<and> Value (jsonDecoded float64_of dp)
       = (case Value dp of VInt i \<Rightarrow> VFloat64 (float64_of i)
          | VInt64 i \<Rightarrow> VFloat64 (float64_of i) | v \<Rightarrow> v)"
  by (cases "Value dp") (simp_all add: jsonDecoded_def)

lemma roundtrip_under_laws:
  assumes "rfc3339RoundTrip lib" and "jsonRoundTrip validUTF8 float64_of lib"
    and "Store lib now tbl e = (None, tbl')"
    and "limit < 0 \<or> int (length (filter (\<lambda>r. r_sent r = Some 0) tbl')) \<le> limit"
    and "inRFC3339Range (Timestamp e)"
    and "\<forall>dp\<in>set (Values e). jsonClean validUTF8 dp"
  shows "filter (\<lambda>e'. ID e' = ID e) (fst (GetPending lib tbl' limit))
           = [e\<lparr>Timestamp := truncateToSecond (Timestamp e),
                Values := map (jsonDecoded float64_of) (Values e)\<rparr>]"
proof -
  from Store_ok_table[OF assms(3)] obtain js where js: "Marshal lib (Values e) = Some js"
    by blast
  have t: "ParseRFC3339 lib (FormatRFC3339 lib (Timestamp e))
             = Some (truncateToSecond (Timestamp e))"
    using assms(1,5) by (simp add: rfc3339RoundTrip_def)
  have u: "Unmarshal lib js = Some (map (jsonDecoded float64_of) (Values e))"
    using assms(2,6) js unfolding jsonRoundTrip_def by blast
  show ?thesis
    by (rule Store_GetPending_glue[OF assms(3,4) t js u])
qed



text \<open>
  Under the round-trip laws an integer value never comes back as it was stored.
\<close>

lemma integer_value_comes_back_float:
  assumes "rfc3339RoundTrip lib" and "jsonRoundTrip validUTF8 float64_of lib"
    and "Store lib now tbl e = (None, tbl')"
    and "limit < 0 \<or> int (length (filter (\<lambda>r. r_sent r = Some 0) tbl')) \<le> limit"
    and "inRFC3339Range (Timestamp e)"
    and "\<forall>dp\<in>set (Values e). jsonClean validUTF8 dp"
    and "dp \<in> set (Values e)" and "Value dp = VInt i"
  shows "\<forall>e'\<in>set (fst (GetPending lib tbl' limit)). ID e' = ID e \<longrightarrow> Values e' \<noteq> Values e"
proof (intro ballI impI)
  fix e'
  assume e': "e' \<in> set (fst (GetPending lib tbl' limit))" "ID e' = ID e"
  then have "e' \<in> set (filter (\<lambda>e'. ID e' = ID e) (fst (GetPending lib tbl' limit)))" by simp
  then have v: "Values e' = map (jsonDecoded float64_of) (Values e)"
    unfolding roundtrip_under_laws[OF assms(1-6)] by simp
  show "Values e' \<noteq> Values e"
  proof
    assume "Values e' = Values e"
    with v have "map (jsonDecoded float64_of) (Values e) = map (\<lambda>x. x) (Values e)" by simp
    then have "jsonDecoded float64_of dp = dp"
      using assms(7) by (simp only: map_eq_conv)
    then have "Value (jsonDecoded float64_of dp) = Value dp" by simp
    with assms(8) show False by (simp add: jsonDecoded_def)
  qed
qed


section \<open>The manager: the replay cycle\<close>

lemma sendPending_shape:
  "sendPending d pending w = (sentIDs, cs, w') \<Longrightarrow>
     \<exists>k\<le>length pending.
        sentIDs = map ID (take k pending) \<and>
        cs = map (\<lambda>e. SendCall e True) (take k pending)
             @ (if k < length pending then [SendCall (pending ! k) False] else [])"
proof (induction pending arbitrary: w sentIDs cs w')
  case Nil
  then show ?case by simp
next
  case (Cons e es)
  obtain r w1 where send: "sender_Send d e w = (r, w1)" by (cases "sender_Send d e w")
  show ?case
  proof (cases r)
    case (Some err)
    with Cons.prems send have "sentIDs = []" "cs = [SendCall e False]" by auto
    then show ?thesis by (intro exI[of _ 0]) simp
  next
    case None
    obtain ids' cs' w2 where rec: "sendPending d es w1 = (ids', cs', w2)"
      by (cases "sendPending d es w1")
    with Cons.prems send None have eq: "sentIDs = ID e # ids'" "cs = SendCall e True # cs'"
      by auto
    from Cons.IH[OF rec] obtain k where k: "k \<le> length es" "ids' = map ID (take k es)"
      "cs' = map (\<lambda>e. SendCall e True) (take k es)
             @ (if k < length es then [SendCall (es ! k) False] else [])"
      by blast
    show ?thesis
      using k eq by (intro exI[of _ "Suc k"]) simp
  qed
qed



lemma sendCalls_append: "sendCalls (xs @ ys) = sendCalls xs @ sendCalls ys"
  by (induction xs rule: sendCalls.induct) auto



lemma projections_of_sends:
  "sendCalls (map (\<lambda>e. SendCall e ok) es) = map (\<lambda>e. (e, ok)) es"
  "markSentCalls (map (\<lambda>e. SendCall e ok) es) = []"
  "cleanupCalls (map (\<lambda>e. SendCall e ok) es) = []"
  by (induction es) auto

lemma MarkSent_removes:
  "snd (MarkSent tbl ids) = filter (\<lambda>r. \<forall>i\<in>set ids. r_id r \<noteq> Some i) tbl"
proof -
  have fold_eq: "fold (\<lambda>i t. filter (\<lambda>r. r_id r \<noteq> Some i) t) ids tbl
          = filter (\<lambda>r. \<forall>i\<in>set ids. r_id r \<noteq> Some i) tbl" for tbl
  proof (induction ids arbitrary: tbl)
    case Nil
    then show ?case by simp
  next
    case (Cons i ids)
    show ?case by (simp add: Cons.IH)
  qed
  show ?thesis by (simp add: MarkSent_def fold_eq)
qed



text \<open>
  With the collaborators wired to the SQLite buffer, the cycle leaves in the table what
  \<^verbatim>\<open>Cleanup\<close> keeps of the rows whose identifier is not among the delivered ones.
\<close>

lemma sendPending_wired_state:
  "sendPending (wired lib) es w = (ids, cs, w') \<Longrightarrow>
     w_table w' = w_table w \<and> w_clock w' = w_clock w"
proof (induction es arbitrary: w ids cs w')
  case Nil
  then show ?case by simp
next
  case (Cons e es)
  show ?case
  proof (cases "w_endpoint w")
    case Nil
    with Cons.prems show ?thesis by (simp add: wired_def)
  next
    case (Cons ok rest)
    show ?thesis
    proof (cases ok)
      case False
      with Cons Cons.prems show ?thesis by (auto simp: wired_def)
    next
      case True
      obtain ids' cs' w2 where rec:
        "sendPending (wired lib) es (w\<lparr>w_endpoint := rest\<rparr>) = (ids', cs', w2)"
        by (cases "sendPending (wired lib) es (w\<lparr>w_endpoint := rest\<rparr>)")
      from Cons.prems Cons True rec have "w' = w2"
        by (simp add: wired_def)
      with Cons.IH[OF rec] show ?thesis by simp
    qed
  qed
qed

lemma wired_replay_table:
  assumes "fst (GetPending lib (w_table w) 100) = pending" and "pending \<noteq> []"
  shows "\<exists>k\<le>length pending.
           sendCalls (fst (processBufferedData m (wired lib) w))
             = map (\<lambda>e. (e, True)) (take k pending)
               @ (if k < length pending then [(pending ! k, False)] else [])
         \<and> w_table (snd (processBufferedData m (wired lib) w))
             = snd (Cleanup lib (w_clock w)
                      (filter (\<lambda>r. \<forall>i\<in>set (map ID (take k pending)). r_id r \<noteq> Some i)
                         (w_table w))
                      (m_MaxAge m))"
proof -
  have gp: "buffer_GetPending (wired lib) 100 w = ((pending, None), w)"
    using assms(1) by (simp add: wired_def GetPending_def)
  obtain sentIDs cs w2 where sp: "sendPending (wired lib) pending w = (sentIDs, cs, w2)"
    by (cases "sendPending (wired lib) pending w")
  from sendPending_shape[OF sp] obtain k where k: "k \<le> length pending"
    "sentIDs = map ID (take k pending)"
    "cs = map (\<lambda>e. SendCall e True) (take k pending)
          @ (if k < length pending then [SendCall (pending ! k) False] else [])"
    by blast
  note st = sendPending_wired_state[OF sp]
  have tbl: "w_table (snd (processBufferedData m (wired lib) w))
      = snd (Cleanup lib (w_clock w) (snd (MarkSent (w_table w) sentIDs)) (m_MaxAge m))"
    using gp assms(2) sp st
    by (auto simp: processBufferedData_def wired_def MarkSent_def split: prod.splits)
  have tr: "sendCalls (fst (processBufferedData m (wired lib) w)) = sendCalls cs"
    using gp assms(2) sp
    by (auto simp: processBufferedData_def sendCalls_append split: prod.splits)
  show ?thesis
    using k(1) by (intro exI[of _ k])
      (simp add: tbl tr k(2,3) MarkSent_removes sendCalls_append projections_of_sends)
qed




section \<open>The manager: the collection round\<close>

lemma deliverResults_skip:
  "deliverResults m d rs w = deliverResults m d (filter (\<lambda>data. DataPoints data \<noteq> []) rs) w"
  by (induction rs arbitrary: w) (auto split: prod.splits option.splits)

lemma gathered_filter:
  "gathered (filter nonEmptyPoll polls) = filter (\<lambda>data. DataPoints data \<noteq> []) (gathered polls)"
  by (induction polls rule: gathered.induct) (auto simp: nonEmptyPoll_def)

lemma NewEnvelope_fields:
  "NewEnvelope d sid sn did dn dg vs w = (e, w') \<Longrightarrow>
     StationID e = sid \<and> StationName e = sn \<and> DeviceID e = did \<and> DeviceName e = dn \<and>
     DeviceGroup e = dg \<and> Values e = vs"
  by (auto simp: NewEnvelope_def split: prod.splits)

lemma deliverResults_step:
  assumes "DataPoints data \<noteq> []"
  shows "\<exists>env pre w'. Values env = DataPoints data \<and> DeviceID env = cd_DeviceID data \<and>
           DeviceName env = cd_DeviceName data \<and> DeviceGroup env = cd_DeviceGroup data \<and>
           (\<forall>c\<in>set pre. callEnvelope c = Some env) \<and>
           fst (deliverResults m d (data # rest) w) = pre @ fst (deliverResults m d rest w')"
proof -
  obtain env w1 where ne: "NewEnvelope d (m_StationID m) (m_StationName m) (cd_DeviceID data)
                (cd_DeviceName data) (cd_DeviceGroup data) (DataPoints data) w = (env, w1)"
    by (cases "NewEnvelope d (m_StationID m) (m_StationName m) (cd_DeviceID data)
                (cd_DeviceName data) (cd_DeviceGroup data) (DataPoints data) w")
  note f = NewEnvelope_fields[OF ne]
  obtain r w2 where send: "sender_Send d env w1 = (r, w2)"
    by (cases "sender_Send d env w1")
  show ?thesis
  proof (cases r)
    case None
    have "fst (deliverResults m d (data # rest) w)
            = [Built env, SendCall env True] @ fst (deliverResults m d rest w2)"
      using assms ne send None by (simp split: prod.splits)
    with f show ?thesis by (intro exI[of _ env] exI[of _ "[Built env, SendCall env True]"] exI[of _ w2]) simp
  next
    case (Some err)
    show ?thesis
    proof (cases "bufferEnabled m \<and> bufferPresent m")
      case True
      obtain bufErr w3 where store: "buffer_Store d env w2 = (bufErr, w3)"
        by (cases "buffer_Store d env w2")
      have "fst (deliverResults m d (data # rest) w)
            = [Built env, SendCall env False, StoreCall env (bufErr = None)]
              @ fst (deliverResults m d rest w3)"
        using assms ne send Some True store by (simp split: prod.splits)
      with f show ?thesis
        by (intro exI[of _ env]
            exI[of _ "[Built env, SendCall env False, StoreCall env (bufErr = None)]"]
            exI[of _ w3]) simp
    next
      case False
      have "fst (deliverResults m d (data # rest) w)
            = [Built env, SendCall env False] @ fst (deliverResults m d rest w2)"
        using assms ne send Some False by (auto split: prod.splits)
      with f show ?thesis
        by (intro exI[of _ env] exI[of _ "[Built env, SendCall env False]"] exI[of _ w2]) simp
    qed
  qed
qed

lemma deliverResults_envelopes:
  "c \<in> set (fst (deliverResults m d rs w)) \<Longrightarrow> callEnvelope c = Some e \<Longrightarrow>
     \<exists>data\<in>set rs. DataPoints data \<noteq> [] \<and> Values e = DataPoints data \<and>
        DeviceID e = cd_DeviceID data \<and> DeviceName e = cd_DeviceName data \<and>
        DeviceGroup e = cd_DeviceGroup data"
proof (induction rs arbitrary: w)
  case Nil
  then show ?case by simp
next
  case (Cons data rest)
  show ?case
  proof (cases "DataPoints data = []")
    case True
    with Cons show ?thesis by auto
  next
    case False
    from deliverResults_step[OF False, of m d rest w] obtain env pre w' where
      f: "Values env = DataPoints data" "DeviceID env = cd_DeviceID data"
         "DeviceName env = cd_DeviceName data" "DeviceGroup env = cd_DeviceGroup data"
      and pre: "\<forall>c\<in>set pre. callEnvelope c = Some env"
      and tr: "fst (deliverResults m d (data # rest) w) = pre @ fst (deliverResults m d rest w')"
      by blast
    from Cons.prems(1) tr have "c \<in> set pre \<or> c \<in> set (fst (deliverResults m d rest w'))"
      by simp
    then show ?thesis
    proof
      assume "c \<in> set pre"
      with pre Cons.prems(2) have "e = env" by auto
      with f False show ?thesis by auto
    next
      assume "c \<in> set (fst (deliverResults m d rest w'))"
      from Cons.IH[OF this Cons.prems(2)] show ?thesis by auto
    qed
  qed
qed

text \<open>
  C6. A collection round does exactly what it does on the polls without the samples that
  have no measurement (the same calls and the same final state); every envelope it builds,
  sends or stores comes from a sample with at least one measurement; and a round whose only
  sample is empty makes no call and leaves the state as it was.
\<close>

theorem empty_sample_is_skipped:
  "collectAndSend m d polls w = collectAndSend m d (filter nonEmptyPoll polls) w
   \<and> (\<forall>c\<in>set (fst (collectAndSend m d polls w)). \<forall>e. callEnvelope c = Some e \<longrightarrow>
        (\<exists>data\<in>set (gathered polls). DataPoints data \<noteq> [] \<and> Values e = DataPoints data \<and>
           DeviceID e = cd_DeviceID data \<and> DeviceName e = cd_DeviceName data \<and>
           DeviceGroup e = cd_DeviceGroup data))
   \<and> (\<forall>data. DataPoints data = [] \<longrightarrow> collectAndSend m d [Inr data] w = ([], w))"
proof (intro conjI)
  show "collectAndSend m d polls w = collectAndSend m d (filter nonEmptyPoll polls) w"
    unfolding collectAndSend_def gathered_filter by (rule deliverResults_skip)
  show "\<forall>c\<in>set (fst (collectAndSend m d polls w)). \<forall>e. callEnvelope c = Some e \<longrightarrow>
        (\<exists>data\<in>set (gathered polls). DataPoints data \<noteq> [] \<and> Values e = DataPoints data \<and>
           DeviceID e = cd_DeviceID data \<and> DeviceName e = cd_DeviceName data \<and>
           DeviceGroup e = cd_DeviceGroup data)"
    unfolding collectAndSend_def using deliverResults_envelopes[of _ m d "gathered polls" w]
    by blast
  show "\<forall>data. DataPoints data = [] \<longrightarrow> collectAndSend m d [Inr data] w = ([], w)"
    by (simp add: collectAndSend_def)
qed

theorem empty_sample_is_skipped_witness:
  "map (\<lambda>c. map_option DeviceID (callEnvelope c))
      (fst (collectAndSend exampleManager (wired exampleCodec) roundPolls roundWorld))
     = [Some ''gen1_telemetry'', Some ''gen1_telemetry'']
   \<and> collectAndSend exampleManager (wired exampleCodec) roundPolls roundWorld
     = collectAndSend exampleManager (wired exampleCodec) (drop 2 roundPolls) roundWorld
   \<and> w_table (snd (collectAndSend exampleManager (wired exampleCodec) roundPolls roundWorld)) = []"
proof -
  have ev: "map (\<lambda>c. map_option DeviceID (callEnvelope c))
      (fst (collectAndSend exampleManager (wired exampleCodec) roundPolls roundWorld))
     = [Some ''gen1_telemetry'', Some ''gen1_telemetry'']"
    "w_table (snd (collectAndSend exampleManager (wired exampleCodec) roundPolls roundWorld)) = []"
    by code_simp+
  have f: "collectAndSend exampleManager (wired exampleCodec) (filter nonEmptyPoll roundPolls) roundWorld
         = collectAndSend exampleManager (wired exampleCodec) (drop 2 roundPolls) roundWorld"
    by (simp add: roundPolls_def nonEmptyPoll_def collectAndSend_def)
  from empty_sample_is_skipped[of exampleManager "wired exampleCodec" roundPolls roundWorld] ev f
  show ?thesis by simp
qed

end
